theory Spec2Isabelle
  imports Complex_Main "HOL-Library.AList" "HOL-Library.Product_Lexorder"
begin

section \<open>Broadcast channels\<close>

text \<open>
  Modelled from the spec: the \<^verbatim>\<open>Broadcast\<close> class of \<^verbatim>\<open>frequenz.channels\<close>, which
  \<^verbatim>\<open>_power_wrapper.py\<close> imports and whose code is not among the source files. The spec
  (4.4 and 9) describes it as a last-message slot plus one queue per receiver: every
  receiver observes every published message once, in publish order, and in
  \<^verbatim>\<open>resend_latest\<close> mode a newly created receiver is first given the most recent
  message. \<open>receivers\<close> holds, for each receiver in order of creation, the messages
  delivered to it so far, oldest first; the bound on the number of messages a slow
  receiver may leave unread is not part of this model. The mode is optional and is off
  unless the constructor is given \<^verbatim>\<open>resend_latest=True\<close>.
\<close>

record 'm Broadcast =
  name :: string
  resend_latest :: bool
  latest :: "'m option"
  receivers :: "'m list list"

definition Broadcast_init :: "string \<Rightarrow> bool \<Rightarrow> 'm Broadcast" where
  "Broadcast_init nm resend =
     \<lparr>name = nm, resend_latest = resend, latest = None, receivers = []\<rparr>"

definition send :: "'m \<Rightarrow> 'm Broadcast \<Rightarrow> 'm Broadcast" where
  "send m ch = ch\<lparr>latest := Some m, receivers := map (\<lambda>q. q @ [m]) (receivers ch)\<rparr>"

definition new_receiver :: "'m Broadcast \<Rightarrow> 'm Broadcast \<times> nat" where
  "new_receiver ch =
     (ch\<lparr>receivers := receivers ch @
          [if resend_latest ch then (case latest ch of None \<Rightarrow> [] | Some m \<Rightarrow> [m]) else []]\<rparr>,
      length (receivers ch))"

text \<open>
  A history of a channel: messages published and receivers created, in order.
  \<open>published\<close> lists the messages of a history.
\<close>

datatype 'm channel_op = Publish 'm | Subscribe

fun apply_op :: "'m channel_op \<Rightarrow> 'm Broadcast \<Rightarrow> 'm Broadcast" where
  "apply_op (Publish m) ch = send m ch"
| "apply_op Subscribe ch = fst (new_receiver ch)"

definition run_ops :: "'m channel_op list \<Rightarrow> 'm Broadcast \<Rightarrow> 'm Broadcast" where
  "run_ops ops ch = fold apply_op ops ch"

fun published :: "'m channel_op list \<Rightarrow> 'm list" where
  "published [] = []"
| "published (Publish m # ops) = m # published ops"
| "published (Subscribe # ops) = published ops"

section \<open>The power wrapper\<close>

text \<open>
  \<^verbatim>\<open>_power_wrapper.py\<close>. The five channels of a wrapper are told apart by
  \<open>channel_id\<close>; a sender or receiver handed to an actor is a \<open>handle\<close> naming its
  channel (and, for a receiver, its index among the channel's receivers).
\<close>

datatype channel_id =
  StatusChannel
  | PowerDistributionRequestsChannel
  | PowerDistributionResultsChannel
  | ProposalChannel
  | BoundsSubscriptionChannel

datatype handle = Sender channel_id | Receiver channel_id nat

datatype actor_kind = PowerDistributing | PowerManaging

text \<open>What a call leaves behind outside the wrapper object: log records and actor tasks.\<close>

datatype 'cat event =
  Warning string 'cat
  | ActorStarted actor_kind
  | ActorStopped actor_kind

record ('reg, 'cat, 'ty) PowerManagingActor =
  pm_component_category :: 'cat
  pm_component_type :: "'ty option"
  pm_proposals_receiver :: handle
  pm_bounds_subscription_receiver :: handle
  pm_power_distributing_requests_sender :: handle
  pm_power_distributing_results_receiver :: handle
  pm_channel_registry :: 'reg

record ('cat, 'ty) PowerDistributingActor =
  pd_component_category :: 'cat
  pd_component_type :: "'ty option"
  pd_requests_receiver :: handle
  pd_results_sender :: handle
  pd_component_pool_status_sender :: handle
  pd_wait_for_data_sec :: real

definition POWER_DISTRIBUTING_ACTOR_WAIT_FOR_DATA_SEC :: real where
  "POWER_DISTRIBUTING_ACTOR_WAIT_FOR_DATA_SEC = 2"

record ('reg, 'cat, 'ty, 'st, 'rq, 'rs, 'pr, 'rr) PowerWrapper =
  component_category :: 'cat
  component_type :: "'ty option"
  channel_registry :: 'reg
  status_channel :: "'st Broadcast"
  power_distribution_requests_channel :: "'rq Broadcast"
  power_distribution_results_channel :: "'rs Broadcast"
  proposal_channel :: "'pr Broadcast"
  bounds_subscription_channel :: "'rr Broadcast"
  power_distributing_actor :: "('cat, 'ty) PowerDistributingActor option"
  power_managing_actor :: "('reg, 'cat, 'ty) PowerManagingActor option"
  wrapper_pd_wait_for_data_sec :: real

text \<open>\<^verbatim>\<open>PowerWrapper.__init__\<close>: the keyword \<^verbatim>\<open>component_type\<close> defaults to \<^verbatim>\<open>None\<close>.\<close>

definition PowerWrapper_init ::
  "'reg \<Rightarrow> 'cat \<Rightarrow> 'ty option \<Rightarrow> ('reg, 'cat, 'ty, 'st, 'rq, 'rs, 'pr, 'rr) PowerWrapper" where
  "PowerWrapper_init registry category ctype =
     \<lparr>component_category = category,
      component_type = ctype,
      channel_registry = registry,
      status_channel = Broadcast_init ''Component Status Channel'' True,
      power_distribution_requests_channel =
        Broadcast_init ''Power Distributing Actor, Requests Broadcast Channel'' False,
      power_distribution_results_channel =
        Broadcast_init ''Power Distributing Actor, Results Broadcast Channel'' False,
      proposal_channel =
        Broadcast_init ''Power Managing Actor, Requests Broadcast Channel'' False,
      bounds_subscription_channel =
        Broadcast_init ''Power Managing Actor, Bounds Subscription Channel'' False,
      power_distributing_actor = None,
      power_managing_actor = None,
      wrapper_pd_wait_for_data_sec = POWER_DISTRIBUTING_ACTOR_WAIT_FOR_DATA_SEC\<rparr>"

text \<open>
  The component graph is reached through \<^verbatim>\<open>microgrid.connection_manager.get()\<close>, which
  is outside the source files: the outcome of that call is an input, \<open>Inl e\<close> when it
  raises \<open>e\<close> and \<open>Inr graph\<close> when it returns, \<open>graph\<close> mapping a set of categories to the
  set of components of these categories. The actors' constructors and their \<^verbatim>\<open>start\<close>
  are taken to return normally. An actor object is truthy, so \<^verbatim>\<open>if self._actor:\<close> tests
  for \<^verbatim>\<open>None\<close>.
\<close>

definition start_power_managing_actor ::
  "'e + ('cat set \<Rightarrow> 'comp set) \<Rightarrow>
   ('reg, 'cat, 'ty, 'st, 'rq, 'rs, 'pr, 'rr) PowerWrapper \<times> 'cat event list \<Rightarrow>
   'e + (('reg, 'cat, 'ty, 'st, 'rq, 'rs, 'pr, 'rr) PowerWrapper \<times> 'cat event list)" where
  "start_power_managing_actor connection wl =
     (case wl of (w, evs) \<Rightarrow>
        if power_managing_actor w \<noteq> None then Inr (w, evs)
        else
          (case connection of
             Inl e \<Rightarrow> Inl e
           | Inr component_graph \<Rightarrow>
               if component_graph {component_category w} = {} then
                 Inr (w, evs @
                   [Warning ''No %s found in the component graph. The power managing actor will not be started.''
                      (component_category w)])
               else
                 (case new_receiver (proposal_channel w) of (pc, r1) \<Rightarrow>
                  case new_receiver (bounds_subscription_channel w) of (bc, r2) \<Rightarrow>
                  case new_receiver (power_distribution_results_channel w) of (rc, r3) \<Rightarrow>
                    Inr (w\<lparr>proposal_channel := pc,
                            bounds_subscription_channel := bc,
                            power_distribution_results_channel := rc,
                            power_managing_actor := Some
                              \<lparr>pm_component_category = component_category w,
                               pm_component_type = component_type w,
                               pm_proposals_receiver = Receiver ProposalChannel r1,
                               pm_bounds_subscription_receiver =
                                 Receiver BoundsSubscriptionChannel r2,
                               pm_power_distributing_requests_sender =
                                 Sender PowerDistributionRequestsChannel,
                               pm_power_distributing_results_receiver =
                                 Receiver PowerDistributionResultsChannel r3,
                               pm_channel_registry = channel_registry w\<rparr>\<rparr>,
                         evs @ [ActorStarted PowerManaging]))))"

definition start_power_distributing_actor ::
  "'e + ('cat set \<Rightarrow> 'comp set) \<Rightarrow>
   ('reg, 'cat, 'ty, 'st, 'rq, 'rs, 'pr, 'rr) PowerWrapper \<times> 'cat event list \<Rightarrow>
   'e + (('reg, 'cat, 'ty, 'st, 'rq, 'rs, 'pr, 'rr) PowerWrapper \<times> 'cat event list)" where
  "start_power_distributing_actor connection wl =
     (case wl of (w, evs) \<Rightarrow>
        if power_distributing_actor w \<noteq> None then Inr (w, evs)
        else
          (case connection of
             Inl e \<Rightarrow> Inl e
           | Inr component_graph \<Rightarrow>
               if component_graph {component_category w} = {} then
                 Inr (w, evs @
                   [Warning ''No %s found in the component graph. The power distributing actor will not be started.''
                      (component_category w)])
               else
                 (case new_receiver (power_distribution_requests_channel w) of (qc, r1) \<Rightarrow>
                    Inr (w\<lparr>power_distribution_requests_channel := qc,
                            power_distributing_actor := Some
                              \<lparr>pd_component_category = component_category w,
                               pd_component_type = component_type w,
                               pd_requests_receiver =
                                 Receiver PowerDistributionRequestsChannel r1,
                               pd_results_sender = Sender PowerDistributionResultsChannel,
                               pd_component_pool_status_sender = Sender StatusChannel,
                               pd_wait_for_data_sec = wrapper_pd_wait_for_data_sec w\<rparr>\<rparr>,
                         evs @ [ActorStarted PowerDistributing]))))"

definition started :: "('reg, 'cat, 'ty, 'st, 'rq, 'rs, 'pr, 'rr) PowerWrapper \<Rightarrow> bool" where
  "started w = (power_managing_actor w \<noteq> None \<and> power_distributing_actor w \<noteq> None)"

definition start ::
  "'e + ('cat set \<Rightarrow> 'comp set) \<Rightarrow>
   ('reg, 'cat, 'ty, 'st, 'rq, 'rs, 'pr, 'rr) PowerWrapper \<times> 'cat event list \<Rightarrow>
   'e + (('reg, 'cat, 'ty, 'st, 'rq, 'rs, 'pr, 'rr) PowerWrapper \<times> 'cat event list)" where
  "start connection wl =
     (if started (fst wl) then Inr wl
      else
        (case start_power_distributing_actor connection wl of
           Inl e \<Rightarrow> Inl e
         | Inr wl' \<Rightarrow> start_power_managing_actor connection wl'))"

text \<open>
  \<^verbatim>\<open>stop\<close> awaits the \<^verbatim>\<open>stop\<close> of each actor that exists. What an actor's \<^verbatim>\<open>stop\<close> does is
  outside the source files: \<open>raises k\<close> is the exception it raises for the actor of kind
  \<open>k\<close>, if any. An exception of the first \<^verbatim>\<open>await\<close> leaves the second actor untouched.
\<close>

definition stop_actor ::
  "(actor_kind \<Rightarrow> 'e option) \<Rightarrow> actor_kind \<Rightarrow> bool \<Rightarrow> 'cat event list \<Rightarrow> 'e + 'cat event list" where
  "stop_actor raises k present evs =
     (if present then
        (case raises k of Some e \<Rightarrow> Inl e | None \<Rightarrow> Inr (evs @ [ActorStopped k]))
      else Inr evs)"

definition stop ::
  "(actor_kind \<Rightarrow> 'e option) \<Rightarrow>
   ('reg, 'cat, 'ty, 'st, 'rq, 'rs, 'pr, 'rr) PowerWrapper \<times> 'cat event list \<Rightarrow>
   'e + (('reg, 'cat, 'ty, 'st, 'rq, 'rs, 'pr, 'rr) PowerWrapper \<times> 'cat event list)" where
  "stop raises wl =
     (case wl of (w, evs) \<Rightarrow>
        (case stop_actor raises PowerDistributing (power_distributing_actor w \<noteq> None) evs of
           Inl e \<Rightarrow> Inl e
         | Inr evs1 \<Rightarrow>
             (case stop_actor raises PowerManaging (power_managing_actor w \<noteq> None) evs1 of
                Inl e \<Rightarrow> Inl e
              | Inr evs2 \<Rightarrow> Inr (w, evs2))))"

text \<open>
  Concrete inputs for the examples below: the two categories the source files name, a
  wrapper for batteries as \<^verbatim>\<open>PowerWrapper(registry, component_category=BATTERY)\<close>
  makes it, a connection manager that raises, and the same wrapper after \<^verbatim>\<open>start\<close> on a
  graph that holds one battery.
\<close>

datatype ComponentCategory = BATTERY | INVERTER

definition battery_wrapper ::
  "(unit, ComponentCategory, unit, nat set, nat, nat, nat, nat) PowerWrapper" where
  "battery_wrapper = PowerWrapper_init () BATTERY None"

definition no_connection :: "unit + (ComponentCategory set \<Rightarrow> nat set)" where
  "no_connection = Inl ()"

definition one_battery :: "unit + (ComponentCategory set \<Rightarrow> nat set)" where
  "one_battery = Inr (\<lambda>cs. if BATTERY \<in> cs then {0} else {})"

definition no_battery :: "unit + (ComponentCategory set \<Rightarrow> nat set)" where
  "no_battery = Inr (\<lambda>cs. {})"

definition started_battery_wrapper ::
  "(unit, ComponentCategory, unit, nat set, nat, nat, nat, nat) PowerWrapper" where
  "started_battery_wrapper =
     (case start one_battery (battery_wrapper, []) of
        Inr (w, evs) \<Rightarrow> w
      | Inl e \<Rightarrow> battery_wrapper)"

section \<open>The component availability tracker\<close>

text \<open>
  Modelled from the spec: the tracker class \<^verbatim>\<open>BatteryPoolStatus\<close>. Of it the source
  files hold only the construction in \<^verbatim>\<open>examples/battery_status.py\<close>
  (\<open>main_batteries_status\<close> below, with the values 5 and 30 written there); the state
  machine follows the spec (3, 4.1). A status is created when data of a component of the
  target set is first seen, and is never removed. At every event, at time \<open>now\<close>, a
  component that is BLOCKED and whose timer has elapsed returns to WORKING; then a
  component that is WORKING and whose data is stale
  (\<open>now - last_data_timestamp > max_data_age_sec\<close>) or that is reported as failed becomes
  BLOCKED with \<open>blocked_until = now + max_blocking_duration_sec\<close>. Times are seconds,
  as real numbers.
\<close>

datatype component_state = WORKING | BLOCKED

record ComponentStatus =
  component_id :: nat
  state :: component_state
  blocked_until :: "real option"
  last_data_timestamp :: real

record BatteryPoolStatus =
  battery_ids :: "nat set"
  max_data_age_sec :: real
  max_blocking_duration_sec :: real
  statuses :: "nat \<rightharpoonup> ComponentStatus"

definition BatteryPoolStatus_init :: "nat set \<Rightarrow> real \<Rightarrow> real \<Rightarrow> BatteryPoolStatus" where
  "BatteryPoolStatus_init ids max_age max_blocking =
     \<lparr>battery_ids = ids, max_data_age_sec = max_age,
      max_blocking_duration_sec = max_blocking, statuses = Map.empty\<rparr>"

text \<open>The construction in \<^verbatim>\<open>main\<close> of \<^verbatim>\<open>examples/battery_status.py\<close>.\<close>

definition main_batteries_status :: "nat set \<Rightarrow> BatteryPoolStatus" where
  "main_batteries_status batteries = BatteryPoolStatus_init batteries 5 30"

datatype tracker_event = Data nat real | Failure nat | Tick

definition timer_elapsed :: "real \<Rightarrow> ComponentStatus \<Rightarrow> bool" where
  "timer_elapsed now st = (case blocked_until st of None \<Rightarrow> True | Some d \<Rightarrow> d \<le> now)"

definition stale :: "real \<Rightarrow> real \<Rightarrow> ComponentStatus \<Rightarrow> bool" where
  "stale max_age now st = (now - last_data_timestamp st > max_age)"

definition update_status ::
  "BatteryPoolStatus \<Rightarrow> real \<Rightarrow> bool \<Rightarrow> ComponentStatus \<Rightarrow> ComponentStatus" where
  "update_status t now failed st =
     (let st1 = (if state st = BLOCKED \<and> timer_elapsed now st
                 then st\<lparr>state := WORKING, blocked_until := None\<rparr> else st)
      in if state st1 = WORKING \<and> (stale (max_data_age_sec t) now st1 \<or> failed)
         then st1\<lparr>state := BLOCKED,
                  blocked_until := Some (now + max_blocking_duration_sec t)\<rparr>
         else st1)"

definition observe ::
  "nat \<Rightarrow> real \<Rightarrow> (nat \<rightharpoonup> ComponentStatus) \<Rightarrow> (nat \<rightharpoonup> ComponentStatus)" where
  "observe c ts m =
     (case m c of
        None \<Rightarrow> m(c \<mapsto> \<lparr>component_id = c, state = WORKING, blocked_until = None,
                         last_data_timestamp = ts\<rparr>)
      | Some st \<Rightarrow> m(c \<mapsto> st\<lparr>last_data_timestamp := ts\<rparr>))"

definition record_data ::
  "BatteryPoolStatus \<Rightarrow> tracker_event \<Rightarrow> (nat \<rightharpoonup> ComponentStatus)" where
  "record_data t e =
     (case e of
        Data c ts \<Rightarrow> if c \<in> battery_ids t then observe c ts (statuses t) else statuses t
      | Failure c \<Rightarrow> statuses t
      | Tick \<Rightarrow> statuses t)"

definition tracker_step :: "BatteryPoolStatus \<Rightarrow> real \<times> tracker_event \<Rightarrow> BatteryPoolStatus" where
  "tracker_step t ev =
     (case ev of (now, e) \<Rightarrow>
        t\<lparr>statuses :=
            (\<lambda>c. map_option (update_status t now (e = Failure c)) (record_data t e c))\<rparr>)"

text \<open>A run: the events, each with the time at which it is handled, in order.\<close>

definition tracker_run :: "BatteryPoolStatus \<Rightarrow> (real \<times> tracker_event) list \<Rightarrow> BatteryPoolStatus" where
  "tracker_run t evs = fold (\<lambda>ev t. tracker_step t ev) evs t"

definition working_set :: "BatteryPoolStatus \<Rightarrow> nat set" where
  "working_set t = {c \<in> battery_ids t. map_option state (statuses t c) = Some WORKING}"

text \<open>
  The invariant behind the deadline: from the moment a component is BLOCKED with deadline
  \<open>d\<close>, either the clock has reached \<open>d\<close> or the component is still BLOCKED with a
  deadline no earlier than \<open>d\<close>.
\<close>

definition held_back :: "real \<Rightarrow> real \<Rightarrow> ComponentStatus \<Rightarrow> bool" where
  "held_back d now st =
     (d \<le> now \<or> (state st = BLOCKED \<and> (case blocked_until st of None \<Rightarrow> False | Some d' \<Rightarrow> d \<le> d')))"

section \<open>The power managing actor's resolver\<close>

text \<open>
  Modelled from the spec: the resolver of the power managing actor, which is not among
  the source files. Data and steps follow the spec (3 and 4.3). The active proposals of
  a group, keyed by \<open>source_id\<close>, are split into shifting and regular ones (step 1); the
  envelope is an input (step 2); the offset is the sum of the shifting targets, a missing
  target counting 0 (step 3). The regular proposals are put in order of seniority, a
  lower priority number being more senior and the latest winning among equals; the most
  senior one is offered the envelope shifted by the offset, intersected with its own
  declared bounds if it has any, and each junior one what remains after room is reserved
  for the proposal just senior to it (step 4). The resolved target is the target of the
  most senior regular proposal that has one, clipped into the bounds offered to it, plus
  the offset, and the offset alone when no regular proposal has a target (steps 5, 6).
  Computed bounds with \<open>lower > upper\<close> are the error \<open>InvariantViolation\<close>.

  The spec does not say how room is reserved for a senior proposal (9 leaves the rule
  open), so that rule is the parameter \<open>reserve\<close>: \<open>reserve b p\<close> is what remains of the
  bounds \<open>b\<close> offered to \<open>p\<close> for the next junior proposal. The envelope shifted by the
  offset is the envelope with the offset subtracted, the sign the spec's scenario B
  gives. Powers are watts and times seconds, as real numbers. How the envelope follows
  from the WORKING set, and whether a command is sent, is outside this model.
\<close>

record Proposal =
  source_id :: string
  priority :: int
  component_ids :: "nat set"
  target_power :: "real option"
  bounds :: "(real \<times> real) option"
  in_shifting_group :: bool
  created_at :: real
  lifetime :: real

record Report =
  report_target :: real
  report_bounds :: "(int \<times> (real \<times> real)) list"
  report_shifting_bounds :: "real \<times> real"

record ResolvedRequest =
  request_component_ids :: "nat set"
  request_target_power :: real

datatype resolve_error = InvariantViolation

text \<open>A new proposal of a source replaces the proposal the table holds for that source.\<close>

definition submit :: "Proposal \<Rightarrow> (string \<times> Proposal) list \<Rightarrow> (string \<times> Proposal) list" where
  "submit p table = AList.update (source_id p) p table"

definition active :: "real \<Rightarrow> Proposal \<Rightarrow> bool" where
  "active now p = (now < created_at p + lifetime p)"

definition group_proposals :: "real \<Rightarrow> nat set \<Rightarrow> (string \<times> Proposal) list \<Rightarrow> Proposal list" where
  "group_proposals now g table =
     filter (\<lambda>p. component_ids p = g \<and> active now p) (map snd table)"

definition shifting_offset :: "Proposal list \<Rightarrow> real" where
  "shifting_offset shifting =
     sum_list (map (\<lambda>p. case target_power p of None \<Rightarrow> 0 | Some v \<Rightarrow> v) shifting)"

definition shifting_bounds :: "real \<times> real \<Rightarrow> Proposal list \<Rightarrow> real \<times> real" where
  "shifting_bounds envelope shifting =
     (let declared = List.map_filter bounds shifting
      in if declared = [] then envelope
         else (sum_list (map fst declared), sum_list (map snd declared)))"

definition shift_envelope :: "real \<times> real \<Rightarrow> real \<Rightarrow> real \<times> real" where
  "shift_envelope envelope offset = (fst envelope - offset, snd envelope - offset)"

definition intersect :: "real \<times> real \<Rightarrow> real \<times> real \<Rightarrow> real \<times> real" where
  "intersect a b = (max (fst a) (fst b), min (snd a) (snd b))"

definition own_bounds :: "real \<times> real \<Rightarrow> Proposal \<Rightarrow> real \<times> real" where
  "own_bounds b p = (case bounds p of None \<Rightarrow> b | Some d \<Rightarrow> intersect b d)"

fun junior_bounds ::
  "(real \<times> real \<Rightarrow> Proposal \<Rightarrow> real \<times> real) \<Rightarrow> real \<times> real \<Rightarrow> Proposal list \<Rightarrow>
   (Proposal \<times> (real \<times> real)) list" where
  "junior_bounds reserve b [] = []"
| "junior_bounds reserve b (p # ps) = (p, b) # junior_bounds reserve (reserve b p) ps"

definition by_seniority :: "Proposal list \<Rightarrow> Proposal list" where
  "by_seniority ps = sort_key (\<lambda>p. (priority p, - created_at p)) ps"

definition available_bounds ::
  "(real \<times> real \<Rightarrow> Proposal \<Rightarrow> real \<times> real) \<Rightarrow> real \<times> real \<Rightarrow> real \<Rightarrow> Proposal list \<Rightarrow>
   (Proposal \<times> (real \<times> real)) list" where
  "available_bounds reserve envelope offset regular =
     (case by_seniority regular of
        [] \<Rightarrow> []
      | p # ps \<Rightarrow>
          junior_bounds reserve (own_bounds (shift_envelope envelope offset) p) (p # ps))"

definition clip :: "real \<times> real \<Rightarrow> real \<Rightarrow> real" where
  "clip b v = max (fst b) (min (snd b) v)"

definition resolved_target :: "(Proposal \<times> (real \<times> real)) list \<Rightarrow> real \<Rightarrow> real" where
  "resolved_target offered offset =
     (case find (\<lambda>pb. target_power (fst pb) \<noteq> None) offered of
        None \<Rightarrow> offset
      | Some pb \<Rightarrow>
          (case target_power (fst pb) of
             None \<Rightarrow> offset
           | Some v \<Rightarrow> clip (snd pb) v + offset))"

definition resolve ::
  "(real \<times> real \<Rightarrow> Proposal \<Rightarrow> real \<times> real) \<Rightarrow> real \<Rightarrow> nat set \<Rightarrow> real \<times> real \<Rightarrow>
   (string \<times> Proposal) list \<Rightarrow> resolve_error + Report" where
  "resolve reserve now g envelope table =
     (let proposals = group_proposals now g table;
          shifting = filter in_shifting_group proposals;
          regular = filter (\<lambda>p. \<not> in_shifting_group p) proposals;
          offset = shifting_offset shifting;
          offered = available_bounds reserve envelope offset regular
      in if list_ex (\<lambda>pb. snd (snd pb) < fst (snd pb)) offered then Inl InvariantViolation
         else Inr \<lparr>report_target = resolved_target offered offset,
                   report_bounds = map (\<lambda>pb. (priority (fst pb), snd pb)) offered,
                   report_shifting_bounds = shifting_bounds envelope shifting\<rparr>)"

definition resolved_request :: "nat set \<Rightarrow> Report \<Rightarrow> ResolvedRequest" where
  "resolved_request g r = \<lparr>request_component_ids = g, request_target_power = report_target r\<rparr>"


text \<open>
  The proposals of the spec's scenarios A and B: two regular actors with priorities 3
  and 2 and a shifting actor with priority 1, on a group \<open>g\<close> of batteries, submitted at
  time 0 for 60 seconds; \<open>shift\<close> is what the shifting actor proposes.
\<close>

definition actor_3 :: "nat set \<Rightarrow> Proposal" where
  "actor_3 g =
     \<lparr>source_id = ''actor 3'', priority = 3, component_ids = g, target_power = Some 1000,
      bounds = Some (-4000, 2500), in_shifting_group = False, created_at = 0, lifetime = 60\<rparr>"

definition actor_2 :: "nat set \<Rightarrow> Proposal" where
  "actor_2 g =
     \<lparr>source_id = ''actor 2'', priority = 2, component_ids = g, target_power = Some 2500,
      bounds = None, in_shifting_group = False, created_at = 0, lifetime = 60\<rparr>"

definition actor_1 :: "nat set \<Rightarrow> real option \<Rightarrow> Proposal" where
  "actor_1 g shift =
     \<lparr>source_id = ''actor 1'', priority = 1, component_ids = g, target_power = shift,
      bounds = None, in_shifting_group = True, created_at = 0, lifetime = 60\<rparr>"

definition scenario :: "nat set \<Rightarrow> real option \<Rightarrow> (string \<times> Proposal) list" where
  "scenario g shift = submit (actor_1 g shift) (submit (actor_2 g) (submit (actor_3 g) []))"

section \<open>The documented scenarios\<close>



definition scenario_1_distributed :: real where
  "scenario_1_distributed = 2500"


definition scenario_2_distributed :: real where
  "scenario_2_distributed = 1500"




section \<open>Properties of the power wrapper\<close>

text \<open>
  C9. \<^verbatim>\<open>start\<close> is idempotent: on a wrapper that is already started it returns at once,
  whatever the connection manager would do, leaving the wrapper (both actor references
  included) and the trace of started actors as they were; and each of the two internal
  start methods returns at once when its own actor already exists.
\<close>

theorem start_idempotent:
  "(started w \<longrightarrow> start connection (w, evs) = Inr (w, evs)) \<and>
   (power_managing_actor w \<noteq> None \<longrightarrow>
      start_power_managing_actor connection (w, evs) = Inr (w, evs)) \<and>
   (power_distributing_actor w \<noteq> None \<longrightarrow>
      start_power_distributing_actor connection (w, evs) = Inr (w, evs))"
  by (simp add: start_def start_power_managing_actor_def start_power_distributing_actor_def)

lemma started_battery_wrapper_actors:
  "power_distributing_actor started_battery_wrapper =
     Some \<lparr>pd_component_category = BATTERY, pd_component_type = None,
           pd_requests_receiver = Receiver PowerDistributionRequestsChannel 0,
           pd_results_sender = Sender PowerDistributionResultsChannel,
           pd_component_pool_status_sender = Sender StatusChannel,
           pd_wait_for_data_sec = 2\<rparr> \<and>
   power_managing_actor started_battery_wrapper =
     Some \<lparr>pm_component_category = BATTERY, pm_component_type = None,
           pm_proposals_receiver = Receiver ProposalChannel 0,
           pm_bounds_subscription_receiver = Receiver BoundsSubscriptionChannel 0,
           pm_power_distributing_requests_sender = Sender PowerDistributionRequestsChannel,
           pm_power_distributing_results_receiver = Receiver PowerDistributionResultsChannel 0,
           pm_channel_registry = ()\<rparr>"
  by (simp add: started_battery_wrapper_def battery_wrapper_def one_battery_def start_def
      started_def start_power_managing_actor_def start_power_distributing_actor_def
      PowerWrapper_init_def new_receiver_def Broadcast_init_def
      POWER_DISTRIBUTING_ACTOR_WAIT_FOR_DATA_SEC_def)

theorem start_idempotent_witness:
  "started started_battery_wrapper \<and>
   start no_connection
       (started_battery_wrapper, [ActorStarted PowerDistributing, ActorStarted PowerManaging]) =
     Inr (started_battery_wrapper, [ActorStarted PowerDistributing, ActorStarted PowerManaging]) \<and>
   start_power_managing_actor no_connection (started_battery_wrapper, []) =
     Inr (started_battery_wrapper, []) \<and>
   start_power_distributing_actor no_connection (started_battery_wrapper, []) =
     Inr (started_battery_wrapper, [])"
  using start_idempotent [of started_battery_wrapper no_connection
      "[ActorStarted PowerDistributing, ActorStarted PowerManaging]"]
    start_idempotent [of started_battery_wrapper no_connection "[]"]
    started_battery_wrapper_actors
  by (simp add: started_def)

text \<open>
  C1. When the component graph holds no component of the wrapper's category, \<^verbatim>\<open>start\<close> on
  a wrapper that is not started returns normally, leaves the wrapper as it was (so no
  actor is created and \<^verbatim>\<open>started\<close> stays \<^verbatim>\<open>False\<close>), starts no actor, and logs one
  warning for each actor that is missing: the distributing actor's first, then the
  managing actor's.
\<close>

theorem start_without_components:
  assumes "component_graph {component_category w} = {}" and "\<not> started w"
  shows "start (Inr component_graph) (w, evs) =
     Inr (w, evs @
       (if power_distributing_actor w = None then
          [Warning ''No %s found in the component graph. The power distributing actor will not be started.''
             (component_category w)] else []) @
       (if power_managing_actor w = None then
          [Warning ''No %s found in the component graph. The power managing actor will not be started.''
             (component_category w)] else []))"
  using assms
  by (simp add: start_def start_power_managing_actor_def start_power_distributing_actor_def
      started_def)

theorem start_without_components_witness:
  "start no_battery (battery_wrapper, []) =
     Inr (battery_wrapper,
       [Warning ''No %s found in the component graph. The power distributing actor will not be started.''
          BATTERY,
        Warning ''No %s found in the component graph. The power managing actor will not be started.''
          BATTERY]) \<and>
   \<not> started battery_wrapper"
  using start_without_components [of "\<lambda>cs. {}" battery_wrapper "[]"]
  by (simp add: started_def battery_wrapper_def PowerWrapper_init_def no_battery_def)

text \<open>
  C10. \<^verbatim>\<open>stop\<close> on a wrapper with no actor returns normally and does nothing, whatever the
  actors' own \<^verbatim>\<open>stop\<close> would do. When no actor's \<^verbatim>\<open>stop\<close> raises, exactly the actors that
  exist are stopped, the distributing actor before the managing actor. Whenever \<^verbatim>\<open>stop\<close>
  returns, the wrapper, its channels included, is as it was.
\<close>

theorem stop_never_started:
  "(power_distributing_actor w = None \<and> power_managing_actor w = None \<longrightarrow>
      stop raises (w, evs) = Inr (w, evs)) \<and>
   (raises PowerDistributing = None \<and> raises PowerManaging = None \<longrightarrow>
      stop raises (w, evs) =
        Inr (w, evs @
          (if power_distributing_actor w \<noteq> None then [ActorStopped PowerDistributing] else []) @
          (if power_managing_actor w \<noteq> None then [ActorStopped PowerManaging] else []))) \<and>
   (stop raises (w, evs) = Inr (w', evs') \<longrightarrow> w' = w)"
  by (auto simp add: stop_def stop_actor_def split: option.splits sum.splits if_splits)

theorem stop_never_started_witness:
  "stop (\<lambda>k. Some ()) (battery_wrapper, []) = Inr (battery_wrapper, []) \<and>
   stop (\<lambda>k. None :: unit option) (started_battery_wrapper, []) =
     Inr (started_battery_wrapper, [ActorStopped PowerDistributing, ActorStopped PowerManaging])"
  using stop_never_started [of battery_wrapper "\<lambda>k. Some ()" "[]"]
    stop_never_started [of started_battery_wrapper "\<lambda>k. None :: unit option" "[]"]
    started_battery_wrapper_actors
  by (simp add: battery_wrapper_def PowerWrapper_init_def)


section \<open>Properties of the channels\<close>

lemma apply_op_resend_latest: "resend_latest (apply_op op ch) = resend_latest ch"
  by (cases op) (simp_all add: send_def new_receiver_def)

lemma run_ops_resend_latest: "resend_latest (run_ops ops ch) = resend_latest ch"
  unfolding run_ops_def
  by (induction ops arbitrary: ch) (simp_all add: apply_op_resend_latest)

lemma run_ops_latest:
  "latest (run_ops ops ch) =
     (if published ops = [] then latest ch else Some (last (published ops)))"
  unfolding run_ops_def
proof (induction ops arbitrary: ch)
  case Nil
  show ?case by simp
next
  case (Cons op ops)
  show ?case
    by (cases op) (simp_all add: Cons.IH send_def new_receiver_def)
qed

lemma apply_op_length: "length (receivers ch) \<le> length (receivers (apply_op op ch))"
  by (cases op) (simp_all add: send_def new_receiver_def)

lemma run_ops_queue:
  "i < length (receivers ch) \<Longrightarrow>
   i < length (receivers (run_ops ops ch)) \<and>
   receivers (run_ops ops ch) ! i = receivers ch ! i @ published ops"
  unfolding run_ops_def
proof (induction ops arbitrary: ch)
  case Nil
  then show ?case by simp
next
  case (Cons op ops)
  have len: "i < length (receivers (apply_op op ch))"
    using Cons.prems apply_op_length [of ch op] by simp
  have step: "receivers (apply_op op ch) ! i =
      receivers ch ! i @ (case op of Publish m \<Rightarrow> [m] | Subscribe \<Rightarrow> [])"
    using Cons.prems by (cases op) (simp_all add: send_def new_receiver_def nth_append)
  show ?case
    using Cons.IH [OF len] step by (cases op) simp_all
qed

text \<open>
  C3. Of the five channels a new wrapper creates, the component status channel alone is
  in resend-latest mode. On that channel, after any history in which something was
  published, a newly created receiver is delivered the message published last, and
  after it every message published from then on, in order.
\<close>

theorem status_channel_resend_latest:
  fixes registry :: 'reg and category :: 'cat and ctype :: "'ty option"
    and w :: "('reg, 'cat, 'ty, 'st, 'rq, 'rs, 'pr, 'rr) PowerWrapper"
  defines "w \<equiv> PowerWrapper_init registry category ctype"
  shows "resend_latest (status_channel w) \<and>
   \<not> resend_latest (power_distribution_requests_channel w) \<and>
   \<not> resend_latest (power_distribution_results_channel w) \<and>
   \<not> resend_latest (proposal_channel w) \<and>
   \<not> resend_latest (bounds_subscription_channel w) \<and>
   (published before \<noteq> [] \<longrightarrow>
      (case new_receiver (run_ops before (status_channel w)) of
         (ch, i) \<Rightarrow>
           receivers (run_ops after ch) ! i = last (published before) # published after))"
proof -
  let ?ch = "run_ops before (status_channel w)"
  have flags: "resend_latest (status_channel w)"
    "\<not> resend_latest (power_distribution_requests_channel w)"
    "\<not> resend_latest (power_distribution_results_channel w)"
    "\<not> resend_latest (proposal_channel w)"
    "\<not> resend_latest (bounds_subscription_channel w)"
    by (simp_all add: w_def PowerWrapper_init_def Broadcast_init_def)
  have delivery: "receivers (run_ops after (fst (new_receiver ?ch))) ! snd (new_receiver ?ch) =
      last (published before) # published after" if ne: "published before \<noteq> []"
  proof -
    have r: "resend_latest ?ch" using flags(1) by (simp add: run_ops_resend_latest)
    have l: "latest ?ch = Some (last (published before))" using ne by (simp add: run_ops_latest)
    have i: "snd (new_receiver ?ch) < length (receivers (fst (new_receiver ?ch)))"
      by (simp add: new_receiver_def)
    have q: "receivers (fst (new_receiver ?ch)) ! snd (new_receiver ?ch) = [last (published before)]"
      using r l by (simp add: new_receiver_def)
    show ?thesis using run_ops_queue [OF i, of after] q by simp
  qed
  show ?thesis using flags delivery by (simp add: case_prod_unfold)
qed

theorem status_channel_resend_latest_witness:
  "(case new_receiver (run_ops [Publish {1::nat}, Subscribe, Publish {1, 2}] (status_channel battery_wrapper)) of
      (ch, i) \<Rightarrow> i = 1 \<and> receivers (run_ops [Publish {2}, Subscribe, Publish {}] ch) ! i = [{1, 2}, {2}, {}])"
  using status_channel_resend_latest [where registry = "()" and category = BATTERY
      and ctype = "None :: unit option" and before = "[Publish {1::nat}, Subscribe, Publish {1, 2}]"
      and after = "[Publish {2}, Subscribe, Publish {}]" and ?'rq = nat and ?'rs = nat
      and ?'pr = nat and ?'rr = nat]
  by (simp add: battery_wrapper_def PowerWrapper_init_def Broadcast_init_def run_ops_def
      send_def new_receiver_def)


section \<open>Properties of the tracker\<close>

lemma tracker_step_config:
  "max_blocking_duration_sec (tracker_step t ev) = max_blocking_duration_sec t"
  "max_data_age_sec (tracker_step t ev) = max_data_age_sec t"
  "battery_ids (tracker_step t ev) = battery_ids t"
  by (simp_all add: tracker_step_def split: prod.splits)

lemma update_status_held_back:
  assumes "held_back d tm st" and "tm \<le> now"
  shows "held_back d now (update_status t now failed st)"
  using assms
  by (auto simp add: held_back_def update_status_def Let_def timer_elapsed_def
      split: option.splits)

lemma observe_some:
  "m c = Some st \<Longrightarrow> \<exists>st'. observe c' ts m c = Some st' \<and> state st' = state st \<and>
     blocked_until st' = blocked_until st"
  by (auto simp add: observe_def split: option.splits)

lemma update_status_blocked:
  assumes "state (update_status t now failed st) = BLOCKED"
  shows "blocked_until (update_status t now failed st) = Some (now + max_blocking_duration_sec t) \<or>
     (state st = BLOCKED \<and> blocked_until (update_status t now failed st) = blocked_until st \<and>
      \<not> timer_elapsed now st)"
proof (cases "state st = BLOCKED \<and> timer_elapsed now st")
  case True
  then show ?thesis using assms by (simp add: update_status_def Let_def split: if_splits)
next
  case False
  then show ?thesis using assms
    by (cases "state st") (auto simp add: update_status_def Let_def split: if_splits)
qed

lemma record_data_cases:
  assumes "record_data t e c = Some st1"
  shows "(statuses t c = None \<and> state st1 = WORKING) \<or>
     (\<exists>st. statuses t c = Some st \<and> state st1 = state st \<and> blocked_until st1 = blocked_until st)"
proof (cases e)
  case (Data c' ts)
  show ?thesis
  proof (cases "statuses t c")
    case None
    then show ?thesis using assms Data
      by (auto simp add: record_data_def observe_def split: if_splits option.splits)
  next
    case (Some st)
    then show ?thesis using assms Data
      by (auto simp add: record_data_def observe_def split: if_splits option.splits)
  qed
next
  case (Failure c')
  then show ?thesis using assms by (simp add: record_data_def)
next
  case Tick
  then show ?thesis using assms by (simp add: record_data_def)
qed

lemma tracker_step_statuses:
  "statuses (tracker_step t (now, e)) c =
     map_option (update_status t now (e = Failure c)) (record_data t e c)"
  by (simp add: tracker_step_def)

lemma tracker_step_held_back:
  assumes "statuses t c = Some st" and "held_back d tm st" and "tm \<le> now"
  shows "\<exists>st'. statuses (tracker_step t (now, e)) c = Some st' \<and> held_back d now st'"
proof -
  have "\<exists>st1. record_data t e c = Some st1 \<and> state st1 = state st \<and>
      blocked_until st1 = blocked_until st"
    using assms(1) observe_some [of "statuses t" c st] by (cases e) (auto simp add: record_data_def)
  then obtain st1 where st1: "record_data t e c = Some st1" "state st1 = state st"
    "blocked_until st1 = blocked_until st" by blast
  have "held_back d tm st1" using assms(2) st1 by (simp add: held_back_def)
  then have "held_back d now (update_status t now (e = Failure c) st1)"
    using assms(3) by (rule update_status_held_back)
  then show ?thesis using st1(1) by (simp add: tracker_step_statuses)
qed

lemma tracker_run_held_back:
  assumes "statuses t c = Some st" and "held_back d tm st" and "sorted (tm # map fst evs)"
  shows "\<exists>st'. statuses (tracker_run t evs) c = Some st' \<and> held_back d (last (tm # map fst evs)) st'"
  using assms
proof (induction evs arbitrary: t st tm)
  case Nil
  then show ?case by (simp add: tracker_run_def)
next
  case (Cons ev evs)
  obtain now e where ev: "ev = (now, e)" by (cases ev)
  have le: "tm \<le> now" using Cons.prems(3) ev by simp
  obtain st1 where st1: "statuses (tracker_step t (now, e)) c = Some st1" "held_back d now st1"
    using tracker_step_held_back [OF Cons.prems(1,2) le] by blast
  have srt: "sorted (now # map fst evs)" using Cons.prems(3) ev by simp
  show ?case
    using Cons.IH [OF st1 srt] ev by (simp add: tracker_run_def)
qed

text \<open>
  C8. In a run whose clock never goes back, a component that is BLOCKED with deadline
  \<open>d\<close> after some event is not WORKING after any later event handled before \<open>d\<close>: if it
  is WORKING after the event handled at \<open>tj\<close>, then \<open>d \<le> tj\<close>. And a component that is
  BLOCKED after an event handled at \<open>now\<close> either was blocked by that event, with
  \<open>blocked_until = now + max_blocking_duration_sec\<close>, or was BLOCKED before, with the
  same deadline, not yet reached.
\<close>

theorem blocked_until_respected:
  "(sorted (map fst (before @ (ti, ei) # between @ [(tj, ej)])) \<and>
    statuses (tracker_run t (before @ [(ti, ei)])) c = Some si \<and>
    state si = BLOCKED \<and> blocked_until si = Some d \<and>
    statuses (tracker_run t (before @ (ti, ei) # between @ [(tj, ej)])) c = Some sj \<and>
    state sj = WORKING
    \<longrightarrow> d \<le> tj) \<and>
   (statuses (tracker_step t (now, e)) c = Some s' \<and> state s' = BLOCKED \<longrightarrow>
      blocked_until s' = Some (now + max_blocking_duration_sec t) \<or>
      (case statuses t c of
         None \<Rightarrow> False
       | Some s \<Rightarrow> state s = BLOCKED \<and> blocked_until s = blocked_until s' \<and>
                   \<not> timer_elapsed now s))"
proof (intro conjI impI)
  assume a: "sorted (map fst (before @ (ti, ei) # between @ [(tj, ej)])) \<and>
    statuses (tracker_run t (before @ [(ti, ei)])) c = Some si \<and>
    state si = BLOCKED \<and> blocked_until si = Some d \<and>
    statuses (tracker_run t (before @ (ti, ei) # between @ [(tj, ej)])) c = Some sj \<and>
    state sj = WORKING"
  let ?t1 = "tracker_run t (before @ [(ti, ei)])"
  have hb: "held_back d ti si" using a by (simp add: held_back_def)
  have srt: "sorted (ti # map fst (between @ [(tj, ej)]))"
    using a by (simp add: sorted_append)
  have run: "tracker_run t (before @ (ti, ei) # between @ [(tj, ej)]) =
      tracker_run ?t1 (between @ [(tj, ej)])"
    by (simp add: tracker_run_def)
  obtain st' where st': "statuses (tracker_run ?t1 (between @ [(tj, ej)])) c = Some st'"
    "held_back d (last (ti # map fst (between @ [(tj, ej)]))) st'"
    using tracker_run_held_back [OF _ hb srt, of ?t1 c] a by blast
  have "st' = sj" using st'(1) a run by simp
  then have "held_back d tj sj" using st'(2) by simp
  then show "d \<le> tj" using a by (simp add: held_back_def)
next
  assume a: "statuses (tracker_step t (now, e)) c = Some s' \<and> state s' = BLOCKED"
  then obtain st1 where st1: "record_data t e c = Some st1"
    "s' = update_status t now (e = Failure c) st1"
    by (auto simp add: tracker_step_statuses)
  have blocked: "state (update_status t now (e = Failure c) st1) = BLOCKED"
    using a st1(2) by simp
  note alt = update_status_blocked [OF blocked]
  show "blocked_until s' = Some (now + max_blocking_duration_sec t) \<or>
      (case statuses t c of
         None \<Rightarrow> False
       | Some s \<Rightarrow> state s = BLOCKED \<and> blocked_until s = blocked_until s' \<and>
                   \<not> timer_elapsed now s)"
  proof (cases "blocked_until s' = Some (now + max_blocking_duration_sec t)")
    case True
    then show ?thesis by simp
  next
    case False
    then have old: "state st1 = BLOCKED" "blocked_until s' = blocked_until st1"
      "\<not> timer_elapsed now st1"
      using alt st1(2) by simp_all
    obtain st where st: "statuses t c = Some st" "state st1 = state st"
      "blocked_until st1 = blocked_until st"
      using record_data_cases [OF st1(1)] old(1) by auto
    show ?thesis using st old by (simp add: timer_elapsed_def)
  qed
qed

lemma example_run_blocked:
  "statuses (tracker_run (main_batteries_status {1}) [(0, Data 1 0), (10, Tick)]) 1 =
     Some \<lparr>component_id = 1, state = BLOCKED, blocked_until = Some 40, last_data_timestamp = 0\<rparr>"
  by (simp add: tracker_run_def tracker_step_def record_data_def observe_def update_status_def
      main_batteries_status_def BatteryPoolStatus_init_def timer_elapsed_def stale_def Let_def)

lemma example_run_working:
  "statuses (tracker_run (main_batteries_status {1})
       [(0, Data 1 0), (10, Tick), (20, Data 1 20), (40, Data 1 40)]) 1 =
     Some \<lparr>component_id = 1, state = WORKING, blocked_until = None, last_data_timestamp = 40\<rparr>"
  by (simp add: tracker_run_def tracker_step_def record_data_def observe_def update_status_def
      main_batteries_status_def BatteryPoolStatus_init_def timer_elapsed_def stale_def Let_def)

theorem blocked_until_respected_witness:
  "statuses (tracker_run (main_batteries_status {1}) [(0, Data 1 0), (10, Tick)]) 1 =
     Some \<lparr>component_id = 1, state = BLOCKED, blocked_until = Some 40, last_data_timestamp = 0\<rparr> \<and>
   statuses (tracker_run (main_batteries_status {1})
       [(0, Data 1 0), (10, Tick), (20, Data 1 20), (40, Data 1 40)]) 1 =
     Some \<lparr>component_id = 1, state = WORKING, blocked_until = None, last_data_timestamp = 40\<rparr> \<and>
   (40::real) \<le> 40 \<and>
   blocked_until \<lparr>component_id = 1, state = BLOCKED, blocked_until = Some 40, last_data_timestamp = 0\<rparr> =
     Some (10 + max_blocking_duration_sec (tracker_run (main_batteries_status {1}) [(0, Data 1 0)]))"
  using blocked_until_respected [of "[(0, Data 1 0)]" 10 Tick "[(20, Data 1 20)]" 40 "Data 1 40"
      "main_batteries_status {1}" 1
      "\<lparr>component_id = 1, state = BLOCKED, blocked_until = Some 40, last_data_timestamp = 0\<rparr>"
      40
      "\<lparr>component_id = 1, state = WORKING, blocked_until = None, last_data_timestamp = 40\<rparr>"
      10 Tick
      "\<lparr>component_id = 1, state = BLOCKED, blocked_until = Some 40, last_data_timestamp = 0\<rparr>"]
    blocked_until_respected [where t = "tracker_run (main_batteries_status {1}) [(0, Data 1 0)]"
      and now = 10 and e = Tick and c = 1 and s' =
      "\<lparr>component_id = 1, state = BLOCKED, blocked_until = Some 40, last_data_timestamp = 0\<rparr>"]
    example_run_blocked example_run_working
  by (simp add: tracker_run_def tracker_step_config main_batteries_status_def
      BatteryPoolStatus_init_def)


section \<open>Properties of the configuration\<close>





section \<open>Properties of the documented scenarios\<close>





section \<open>Properties of the resolver\<close>

lemmas resolver_defs = resolve_def group_proposals_def active_def shifting_offset_def
  shifting_bounds_def shift_envelope_def intersect_def available_bounds_def own_bounds_def
  clip_def by_seniority_def resolved_target_def scenario_def actor_1_def actor_2_def
  actor_3_def submit_def List.map_filter_def

text \<open>
  The spec's scenarios A and B on the resolver as the spec words it, for any rule of
  reservation: the resolved targets are 2500 and 1500, and priority 2, the most senior,
  is offered the whole shifted envelope; what priority 3 is offered is what the rule of
  reservation leaves. The tables of the docstring offer priority 2 less, -3000..2500
  and -2000..2500, and priority 3 the whole shifted envelope.
\<close>

lemma scenario_A_as_worded:
  "resolve reserve 0 g (-3000, 3000) (scenario g None) =
     (if snd (reserve (-3000, 3000) (actor_2 g)) < fst (reserve (-3000, 3000) (actor_2 g))
      then Inl InvariantViolation
      else Inr \<lparr>report_target = 2500,
                report_bounds = [(2, (-3000, 3000)), (3, reserve (-3000, 3000) (actor_2 g))],
                report_shifting_bounds = (-3000, 3000)\<rparr>)"
  by (simp add: resolver_defs Let_def)

lemma scenario_B_as_worded:
  "resolve reserve 0 g (-3000, 3000) (scenario g (Some (-1000))) =
     (if snd (reserve (-2000, 4000) (actor_2 g)) < fst (reserve (-2000, 4000) (actor_2 g))
      then Inl InvariantViolation
      else Inr \<lparr>report_target = 1500,
                report_bounds = [(2, (-2000, 4000)), (3, reserve (-2000, 4000) (actor_2 g))],
                report_shifting_bounds = (-3000, 3000)\<rparr>)"
  by (simp add: resolver_defs Let_def)

text \<open>
  C7. Submitting a proposal twice leaves the table, and so what is resolved from it, as
  submitting it once does; a proposal replaces the earlier proposal of its source; a
  proposal equal to the one the table holds for its source changes nothing; a table
  with one entry per source keeps one entry per source; and after a submission the table
  holds the submitted proposal for its source.
\<close>

theorem resubmit_idempotent:
  "submit p (submit p table) = submit p table \<and>
   resolve reserve now g envelope (submit p (submit p table)) =
     resolve reserve now g envelope (submit p table) \<and>
   (source_id p' = source_id p \<longrightarrow> submit p' (submit p table) = submit p' table) \<and>
   (map_of table (source_id p) = Some p \<longrightarrow>
      submit p table = table \<and>
      resolve reserve now g envelope (submit p table) = resolve reserve now g envelope table) \<and>
   (distinct (map fst table) \<longrightarrow> distinct (map fst (submit p table))) \<and>
   map_of (submit p table) (source_id p) = Some p"
  by (simp add: submit_def AList.update_triv AList.distinct_update AList.update_conv')

theorem resubmit_idempotent_witness:
  "submit (actor_2 {1, 2}) (scenario {1, 2} None) = scenario {1, 2} None \<and>
   resolve (\<lambda>b p. b) 0 {1, 2} (-3000, 3000) (submit (actor_2 {1, 2}) (scenario {1, 2} None)) =
     Inr \<lparr>report_target = 2500,
          report_bounds = [(2, (-3000, 3000)), (3, (-3000, 3000))],
          report_shifting_bounds = (-3000, 3000)\<rparr> \<and>
   submit ((actor_2 {1, 2})\<lparr>target_power := Some 500\<rparr>)
       (submit (actor_2 {1, 2}) (scenario {1, 2} None)) =
     submit ((actor_2 {1, 2})\<lparr>target_power := Some 500\<rparr>) (scenario {1, 2} None) \<and>
   distinct (map fst (submit (actor_2 {1, 2}) (scenario {1, 2} None)))"
  using resubmit_idempotent [of "actor_2 {1, 2}" "scenario {1, 2} None" "\<lambda>b p. b" 0 "{1, 2}"
      "(-3000, 3000)" "(actor_2 {1, 2})\<lparr>target_power := Some 500\<rparr>"]
  by (simp add: resolver_defs Let_def)

end
